theory Spec2Isabelle
  imports Main "HOL-Library.Word"
begin

unbundle bit_operations_syntax

section \<open>The LC-3 virtual machine of \<open>vm.c\<close>\<close>

text \<open>
  The source is one C file: two global arrays (\<open>memory\<close> and \<open>reg\<close>), three anonymous
  enumerations (register names, opcodes, condition flags), the fetch and dispatch loop of
  \<open>main\<close>, and the functions \<open>update_flags\<close>, \<open>sign_extend\<close>, \<open>add\<close> and the beginning
  of \<open>ldi\<close>. The identifier \<open>unint16_t\<close> that the file uses in places is read as
  \<open>uint16_t\<close>.
\<close>

subsection \<open>Machine integers\<close>

text \<open>
  \<open>uint16_t\<close> is a 16-bit word. An operand of type \<open>uint16_t\<close> is promoted to \<open>int\<close>
  before any arithmetic; \<open>int\<close> is taken as 32 bits wide, two's complement, and a result
  that is assigned back to a \<open>uint16_t\<close> keeps its low 16 bits. Where the promotion
  cannot change the 16-bit result (a right shift, a mask, a sum that is stored into a
  \<open>uint16_t\<close>) the operation is written directly on the 16-bit word.
\<close>

type_synonym u16 = "16 word"
type_synonym c_int = "32 word"

definition UINT16_MAX :: nat where
  "UINT16_MAX = 65535"

subsection \<open>Registers, opcodes and flags\<close>

definition R_R0 :: nat where "R_R0 = 0"
definition R_R1 :: nat where "R_R1 = 1"
definition R_R2 :: nat where "R_R2 = 2"
definition R_R3 :: nat where "R_R3 = 3"
definition R_R4 :: nat where "R_R4 = 4"
definition R_R5 :: nat where "R_R5 = 5"
definition R_R6 :: nat where "R_R6 = 6"
definition R_R7 :: nat where "R_R7 = 7"
definition R_PC :: nat where "R_PC = 8"
definition R_COND :: nat where "R_COND = 9"
definition R_COUNT :: nat where "R_COUNT = 10"

definition OP_BR :: u16 where "OP_BR = 0"
definition OP_ADD :: u16 where "OP_ADD = 1"
definition OP_LD :: u16 where "OP_LD = 2"
definition OP_ST :: u16 where "OP_ST = 3"
definition OP_JSR :: u16 where "OP_JSR = 4"
definition OP_AND :: u16 where "OP_AND = 5"
definition OP_LDR :: u16 where "OP_LDR = 6"
definition OP_STR :: u16 where "OP_STR = 7"
definition OP_RTI :: u16 where "OP_RTI = 8"
definition OP_NOT :: u16 where "OP_NOT = 9"
definition OP_LDI :: u16 where "OP_LDI = 10"
definition OP_STI :: u16 where "OP_STI = 11"
definition OP_JMP :: u16 where "OP_JMP = 12"
definition OP_RES :: u16 where "OP_RES = 13"
definition OP_LEA :: u16 where "OP_LEA = 14"
definition OP_TRAP :: u16 where "OP_TRAP = 15"

definition FL_POS :: u16 where "FL_POS = push_bit 0 1"
definition FL_ZRO :: u16 where "FL_ZRO = push_bit 1 1"
definition FL_NEG :: u16 where "FL_NEG = push_bit 2 1"

subsection \<open>Faults\<close>

text \<open>
  C does not check an array subscript. The model does: a subscript outside the declared
  bounds of \<open>reg\<close> or \<open>memory\<close> is a fault, and a fault ends the computation.
\<close>

datatype fault = RegisterOutOfBounds | MemoryOutOfBounds

definition bind_fault :: "fault + 'a \<Rightarrow> ('a \<Rightarrow> fault + 'b) \<Rightarrow> fault + 'b" where
  "bind_fault m f = (case m of Inl e \<Rightarrow> Inl e | Inr x \<Rightarrow> f x)"

subsection \<open>The memory array\<close>

text \<open>
  \<open>uint16_t memory[UINT16_MAX]\<close>: the number of cells is the constant in the brackets.
  \<open>memory_at\<close> is the subscript \<open>memory[i]\<close> on the array as it is declared.
\<close>

type_synonym cells = "nat \<Rightarrow> u16"

definition MEMORY_CELLS :: nat where
  "MEMORY_CELLS = UINT16_MAX"

definition memory_at :: "cells \<Rightarrow> nat \<Rightarrow> fault + u16" where
  "memory_at m i = (if i < MEMORY_CELLS then Inr (m i) else Inl MemoryOutOfBounds)"

subsection \<open>The machine state\<close>

text \<open>
  \<open>reg\<close> is the global array \<open>uint16_t reg[R_COUNT]\<close> and \<open>running\<close> the local variable
  of \<open>main\<close> that guards the loop. The state behind \<open>mem_read\<close> (the memory array and
  whatever device a read may poll) is the type parameter \<open>'m\<close>: the source calls
  \<open>mem_read\<close> and defines it nowhere, so the reader is a parameter of the model, a
  function from an address and that state to the word read and the state afterwards.
  \<open>diag\<close> holds the diagnostic of a bad opcode, the opcode and the address it was fetched
  from.
\<close>

record 'm vm =
  reg :: "nat \<Rightarrow> u16"
  memory :: 'm
  running :: bool
  diag :: "(u16 \<times> u16) option"

type_synonym 'm reader = "u16 \<Rightarrow> 'm \<Rightarrow> fault + (u16 \<times> 'm)"

type_synonym 'm handlers = "u16 \<Rightarrow> u16 \<Rightarrow> 'm vm \<Rightarrow> fault + 'm vm"

definition reg_get :: "'m vm \<Rightarrow> u16 \<Rightarrow> fault + u16" where
  "reg_get s r = (if unat r < R_COUNT then Inr (reg s (unat r)) else Inl RegisterOutOfBounds)"

definition reg_set :: "u16 \<Rightarrow> u16 \<Rightarrow> 'm vm \<Rightarrow> fault + 'm vm" where
  "reg_set r v s =
     (if unat r < R_COUNT then Inr (s\<lparr>reg := (reg s)(unat r := v)\<rparr>)
      else Inl RegisterOutOfBounds)"

subsection \<open>\<open>update_flags\<close>\<close>

definition update_flags :: "u16 \<Rightarrow> 'm vm \<Rightarrow> fault + 'm vm" where
  "update_flags r s =
     bind_fault (reg_get s r) (\<lambda>v.
       if v = 0 then Inr (s\<lparr>reg := (reg s)(R_COND := FL_ZRO)\<rparr>)
       else if drop_bit 15 v \<noteq> 0 then Inr (s\<lparr>reg := (reg s)(R_COND := FL_NEG)\<rparr>)
       else Inr (s\<lparr>reg := (reg s)(R_COND := FL_POS)\<rparr>))"

subsection \<open>\<open>sign_extend\<close>\<close>

text \<open>
  \<open>x >> (bit_count - 1)\<close> and \<open>0xFFFF << bit_count\<close> are computed in \<open>int\<close>; the
  compound assignment \<open>x |= ...\<close> stores the low 16 bits of the \<open>int\<close> result. The
  parameter \<open>bit_count\<close> is an \<open>int\<close> in the source; every call passes a positive
  literal, and it is a natural number here. Up to \<open>bit_count = 15\<close> the value
  \<open>0xFFFF << bit_count\<close> fits in a 32-bit \<open>int\<close>; at \<open>bit_count = 16\<close> it does not, and
  the shift is taken to wrap as the machine instruction does, which leaves the low 16
  bits zero.
\<close>

definition sign_extend :: "u16 \<Rightarrow> nat \<Rightarrow> u16" where
  "sign_extend x bit_count =
     (if drop_bit (bit_count - 1) (ucast x :: c_int) AND 1 \<noteq> 0
      then ucast ((ucast x :: c_int) OR push_bit bit_count (0xFFFF :: c_int))
      else x)"

subsection \<open>\<open>add\<close>\<close>

definition add :: "u16 \<Rightarrow> 'm vm \<Rightarrow> fault + 'm vm" where
  "add instr s =
     (let dr = drop_bit 9 instr AND 0x7;
          sr1 = drop_bit 6 instr AND 0x7;
          mode = drop_bit 5 instr AND 0x1
      in bind_fault
           (if mode \<noteq> 0
            then (let imm5 = sign_extend (instr AND 0x1F) 5
                  in bind_fault (reg_get s sr1) (\<lambda>a. reg_set dr (a + imm5) s))
            else (let sr2 = instr AND 0x7
                  in bind_fault (reg_get s sr1) (\<lambda>a.
                     bind_fault (reg_get s sr2) (\<lambda>b. reg_set dr (a + b) s))))
           (update_flags dr))"

subsection \<open>The fetch and dispatch loop of \<open>main\<close>\<close>

text \<open>Modelled from the spec: the body behind the placeholder \<open>{BAD OPCODE, 7}\<close> of the last
  branch of the \<open>switch\<close>, which the source does not give. The loop halts and the
  diagnostic names the opcode and the address the word was fetched from; the program
  counter has been incremented by then, so that address is one less.
\<close>

definition bad_opcode :: "u16 \<Rightarrow> 'm vm \<Rightarrow> fault + 'm vm" where
  "bad_opcode op s = Inr (s\<lparr>running := False, diag := Some (op, reg s R_PC - 1)\<rparr>)"

text \<open>
  The \<open>switch\<close>, in the order of its \<open>case\<close> labels. Only \<open>OP_ADD\<close> has a body in the
  source; the bodies of the thirteen other handled opcodes are placeholders, and the
  parameter \<open>h\<close> stands for them: \<open>h op instr\<close> is the state transformer of opcode \<open>op\<close>.
  \<open>OP_RES\<close>, \<open>OP_RTI\<close> and \<open>default\<close> share the last branch.
\<close>

definition dispatch :: "'m handlers \<Rightarrow> u16 \<Rightarrow> u16 \<Rightarrow> 'm vm \<Rightarrow> fault + 'm vm" where
  "dispatch h op instr s =
     (if op = OP_ADD then add instr s
      else if op = OP_AND then h OP_AND instr s
      else if op = OP_NOT then h OP_NOT instr s
      else if op = OP_BR then h OP_BR instr s
      else if op = OP_JMP then h OP_JMP instr s
      else if op = OP_JSR then h OP_JSR instr s
      else if op = OP_LD then h OP_LD instr s
      else if op = OP_LDI then h OP_LDI instr s
      else if op = OP_LDR then h OP_LDR instr s
      else if op = OP_LEA then h OP_LEA instr s
      else if op = OP_ST then h OP_ST instr s
      else if op = OP_STI then h OP_STI instr s
      else if op = OP_STR then h OP_STR instr s
      else if op = OP_TRAP then h OP_TRAP instr s
      else bad_opcode op s)"

text \<open>
  One iteration of the loop body. In \<open>mem_read(reg[R_PC]++)\<close> the argument is the old
  program counter, and the increment of the \<open>uint16_t\<close> cell is complete before
  \<open>mem_read\<close> runs.
\<close>

definition step :: "'m reader \<Rightarrow> 'm handlers \<Rightarrow> 'm vm \<Rightarrow> fault + 'm vm" where
  "step mem_read h s =
     (let pc = reg s R_PC;
          s1 = s\<lparr>reg := (reg s)(R_PC := pc + 1)\<rparr>
      in bind_fault (mem_read pc (memory s1)) (\<lambda>(instr, m').
           let op = drop_bit 12 instr
           in dispatch h op instr (s1\<lparr>memory := m'\<rparr>)))"

text \<open>
  \<open>while (running)\<close>, for at most \<open>n\<close> iterations: the loop of the source has no bound,
  and \<open>run mem_read h n\<close> is the state after the first \<open>n\<close> iterations, or the halted state
  when the loop leaves earlier.
\<close>

fun run :: "'m reader \<Rightarrow> 'm handlers \<Rightarrow> nat \<Rightarrow> 'm vm \<Rightarrow> fault + 'm vm" where
  "run mem_read h 0 s = Inr s"
| "run mem_read h (Suc n) s =
     (if running s then bind_fault (step mem_read h s) (run mem_read h n) else Inr s)"

text \<open>
  The statements of \<open>main\<close> before the loop: \<open>reg[R_PC] = PC_START\<close> and
  \<open>int running = 1\<close>. \<open>images\<close> are the words of the image files named on the command
  line; \<open>main\<close> uses neither \<open>argc\<close> nor \<open>argv\<close>, and \<open>main_start\<close> does not use them.
\<close>

definition PC_START :: u16 where
  "PC_START = 0x3000"

definition main_start :: "u16 list list \<Rightarrow> 'm vm \<Rightarrow> 'm vm" where
  "main_start images s = s\<lparr>reg := (reg s)(R_PC := PC_START), running := True\<rparr>"

text \<open>The globals before \<open>main\<close> runs: static storage is zero.\<close>

definition globals_zero :: "'m \<Rightarrow> 'm vm" where
  "globals_zero m = \<lparr>reg = (\<lambda>_. 0), memory = m, running = False, diag = None\<rparr>"

text \<open>Modelled from the spec: the load origin of an image file, its first word. The source
  has no loader.
\<close>

definition load_origin :: "u16 list \<Rightarrow> u16 option" where
  "load_origin file = (case file of [] \<Rightarrow> None | origin # _ \<Rightarrow> Some origin)"

subsection \<open>\<open>ldi\<close>\<close>

text \<open>Modelled from the spec: the body of \<open>ldi\<close> after its first statement. The source
  extracts \<open>dr\<close> and stops in the middle of the next statement, at \<open>instr & 0x\<close>. By the
  spec the offset is the sign extension of bits 8 to 0, the address is the program
  counter plus the offset, the destination receives the word read at the address read at
  that address, and the flags are updated from the destination.
\<close>

definition ldi :: "'m reader \<Rightarrow> u16 \<Rightarrow> 'm vm \<Rightarrow> fault + 'm vm" where
  "ldi mem_read instr s =
     (let dr = drop_bit 9 instr AND 0x7;
          offset = sign_extend (instr AND 0x1FF) 9
      in bind_fault (mem_read (reg s R_PC + offset) (memory s)) (\<lambda>(a, m1).
         bind_fault (mem_read a m1) (\<lambda>(v, m2).
         bind_fault (reg_set dr v (s\<lparr>memory := m2\<rparr>)) (update_flags dr))))"

text \<open>
  A reader with no device behind it, on the array as declared: the subscript at the
  address. It is the reader of the examples.
\<close>

definition array_read :: "cells reader" where
  "array_read a m = bind_fault (memory_at m (unat a)) (\<lambda>v. Inr (v, m))"

section \<open>Properties\<close>

lemmas reg_names = R_R0_def R_R1_def R_R2_def R_R3_def R_R4_def R_R5_def R_R6_def
  R_R7_def R_PC_def R_COND_def R_COUNT_def

lemmas op_names = OP_BR_def OP_ADD_def OP_LD_def OP_ST_def OP_JSR_def OP_AND_def
  OP_LDR_def OP_STR_def OP_RTI_def OP_NOT_def OP_LDI_def OP_STI_def OP_JMP_def
  OP_RES_def OP_LEA_def OP_TRAP_def

lemmas flag_names = FL_POS_def FL_ZRO_def FL_NEG_def

subsection \<open>Sign extension\<close>

text \<open>The test of \<open>sign_extend\<close> reads bit \<open>bit_count - 1\<close> of the field.\<close>

lemma sign_test: "(drop_bit m (ucast (x::u16) :: c_int)) AND 1 \<noteq> 0 \<longleftrightarrow> bit x m"
proof -
  have "(drop_bit m (ucast x :: c_int)) AND 1 \<noteq> 0 \<longleftrightarrow> bit (ucast x :: c_int) m"
    by (simp add: and_one_eq bit_iff_odd_drop_bit mod_2_eq_odd)
  also have "\<dots> \<longleftrightarrow> bit x m"
    by (auto simp: bit_simps dest: bit_imp_le_length)
  finally show ?thesis .
qed

lemma bit_ffff: "bit (0xFFFF :: int) k \<longleftrightarrow> k < 16"
proof -
  have e: "(0xFFFF :: int) = mask 16" by (simp add: mask_eq_exp_minus_1)
  show ?thesis unfolding e by (simp add: bit_simps)
qed

lemma bit_sign_extend:
  "bit (sign_extend x n) i \<longleftrightarrow> (bit x i \<or> (bit x (n - 1) \<and> n \<le> i \<and> i < 16))"
proof (cases "bit x (n - 1)")
  case False
  then show ?thesis by (simp add: sign_extend_def sign_test)
next
  case True
  have "bit (ucast ((ucast x :: c_int) OR push_bit n (0xFFFF :: c_int)) :: u16) i
        \<longleftrightarrow> (bit x i \<or> (n \<le> i \<and> i < 16))"
    by (auto simp: bit_simps bit_ffff dest: bit_imp_le_length)
  with True show ?thesis by (simp add: sign_extend_def sign_test)
qed

lemma small_field_high_bits:
  fixes x :: u16
  assumes "unat x < 2 ^ n" and "n \<le> i"
  shows "\<not> bit x i"
proof -
  have "take_bit n (unat x) = unat x"
    using assms(1) by (simp add: take_bit_nat_eq_self_iff)
  then have "bit (unat x) i \<longleftrightarrow> bit (take_bit n (unat x)) i" by simp
  also have "\<dots> \<longleftrightarrow> False" using assms(2) by (simp add: bit_take_bit_iff)
  finally have "\<not> bit (unat x) i" by simp
  then show ?thesis by (simp add: bit_unsigned_iff)
qed

text \<open>
  C2. For a field \<open>x\<close> that fits in \<open>n\<close> bits, \<open>1 \<le> n \<le> 16\<close>, the result of
  \<open>sign_extend x n\<close> has the bits of \<open>x\<close> below position \<open>n\<close> and a copy of bit \<open>n - 1\<close>
  of \<open>x\<close> at every position from \<open>n\<close> to 15: all ones above the field when that bit is 1,
  all zeros otherwise. \<open>sign_extend 0b10000 5\<close> is \<open>0xFFF0\<close> and \<open>sign_extend 0b01111 5\<close>
  is \<open>0x000F\<close>. The function takes and returns values only, it has no state to change.
\<close>

theorem sign_extend_widens:
  assumes "1 \<le> n" and "n \<le> 16" and "unat x < 2 ^ n"
  shows "(\<forall>i<16. bit (sign_extend x n) i = (if n \<le> i then bit x (n - 1) else bit x i))
         \<and> sign_extend 0b10000 5 = 0xFFF0 \<and> sign_extend 0b01111 5 = 0x000F"
proof -
  have "bit (sign_extend x n) i = (if n \<le> i then bit x (n - 1) else bit x i)" if "i < 16" for i
    using that small_field_high_bits [OF assms(3), of i] by (simp add: bit_sign_extend)
  moreover have "sign_extend 0b10000 5 = 0xFFF0" by (simp add: sign_extend_def)
  moreover have "sign_extend 0b01111 5 = 0x000F" by (simp add: sign_extend_def)
  ultimately show ?thesis by simp
qed

theorem sign_extend_widens_witness:
  "(1::nat) \<le> 5 \<and> (5::nat) \<le> 16 \<and> unat (0x13 :: u16) < 2 ^ 5
   \<and> bit (sign_extend 0x13 5) 15 = bit (0x13 :: u16) 4
   \<and> bit (sign_extend 0x13 5) 2 = bit (0x13 :: u16) 2
   \<and> sign_extend 0x13 5 = 0xFFF3"
proof -
  have h: "(1::nat) \<le> 5" "(5::nat) \<le> 16" "unat (0x13 :: u16) < 2 ^ 5" by simp_all
  from sign_extend_widens [OF h]
  have a: "\<forall>i<16. bit (sign_extend 0x13 5) i
             = (if 5 \<le> i then bit (0x13 :: u16) (5 - 1) else bit (0x13 :: u16) i)"
    by blast
  from a have "bit (sign_extend 0x13 5) 15 = bit (0x13 :: u16) 4" by simp
  moreover from a have "bit (sign_extend 0x13 5) 2 = bit (0x13 :: u16) 2" by simp
  moreover have "sign_extend 0x13 5 = 0xFFF3" by (simp add: sign_extend_def)
  ultimately show ?thesis using h by blast
qed

text \<open>
  C9. For \<open>1 \<le> n \<le> 16\<close> and a field \<open>x\<close> below \<open>2 ^ n\<close>, \<open>sign_extend x n\<close> is \<open>x\<close>
  modulo \<open>2 ^ n\<close>, and it is \<open>x\<close> itself when bit \<open>n - 1\<close> of \<open>x\<close> is clear.
\<close>

theorem sign_extend_low_bits:
  assumes "1 \<le> n" and "n \<le> 16" and "unat x < 2 ^ n"
  shows "unat (sign_extend x n) mod 2 ^ n = unat x
         \<and> (\<not> bit x (n - 1) \<longrightarrow> sign_extend x n = x)"
proof -
  have "take_bit n (sign_extend x n) = x"
  proof (rule bit_word_eqI)
    fix i assume "i < LENGTH(16)"
    show "bit (take_bit n (sign_extend x n)) i \<longleftrightarrow> bit x i"
      using small_field_high_bits [OF assms(3), of i] \<open>i < LENGTH(16)\<close>
      by (cases "n \<le> i") (auto simp: bit_take_bit_iff bit_sign_extend)
  qed
  then have "unat (take_bit n (sign_extend x n)) = unat x" by (rule arg_cong)
  then have "take_bit n (unat (sign_extend x n)) = unat x"
    by (simp only: unsigned_take_bit_eq)
  then have "unat (sign_extend x n) mod 2 ^ n = unat x"
    by (simp only: take_bit_eq_mod)
  moreover have "sign_extend x n = x" if "\<not> bit x (n - 1)"
    using that by (simp add: sign_extend_def sign_test)
  ultimately show ?thesis by simp
qed

theorem sign_extend_low_bits_witness:
  "(1::nat) \<le> 9 \<and> (9::nat) \<le> 16 \<and> unat (0x1FD :: u16) < 2 ^ 9 \<and> unat (0x0A :: u16) < 2 ^ 9
   \<and> unat (sign_extend 0x1FD 9) mod 2 ^ 9 = unat (0x1FD :: u16)
   \<and> \<not> bit (0x0A :: u16) (9 - 1) \<and> sign_extend 0x0A 9 = 0x0A"
  using sign_extend_low_bits [of 9 "0x1FD"] sign_extend_low_bits [of 9 "0x0A"]
  by (simp add: bit_iff_odd_drop_bit)

subsection \<open>Condition flags\<close>

text \<open>The test \<open>reg[r] >> 15\<close> of \<open>update_flags\<close> reads bit 15 of the register.\<close>

lemma top_bit_test: "drop_bit 15 (v :: u16) \<noteq> 0 \<longleftrightarrow> bit v 15"
proof -
  have "drop_bit 15 v = 0 \<longleftrightarrow> \<not> bit v 15"
  proof
    assume "drop_bit 15 v = 0"
    then have "\<not> bit (drop_bit 15 v) 0" by simp
    then show "\<not> bit v 15" by (simp add: bit_drop_bit_eq)
  next
    assume nb: "\<not> bit v 15"
    show "drop_bit 15 v = 0"
    proof (rule bit_word_eqI)
      fix i assume "i < LENGTH(16)"
      then show "bit (drop_bit 15 v) i \<longleftrightarrow> bit (0 :: u16) i"
        using nb by (cases "i = 0") (auto simp: bit_drop_bit_eq dest: bit_imp_le_length)
    qed
  qed
  then show ?thesis by blast
qed

lemma update_flags_result:
  assumes "unat r < R_COUNT"
  shows "update_flags r s =
           Inr (s\<lparr>reg := (reg s)(R_COND :=
                  (if reg s (unat r) = 0 then FL_ZRO
                   else if bit (reg s (unat r)) 15 then FL_NEG else FL_POS))\<rparr>)"
  using assms by (simp add: update_flags_def reg_get_def bind_fault_def top_bit_test)

text \<open>
  C3. For every index \<open>r\<close> into the register array, \<open>update_flags r\<close> writes the
  condition register and nothing else, and the value written is exactly one of
  \<open>FL_POS\<close>, \<open>FL_ZRO\<close>, \<open>FL_NEG\<close>: \<open>FL_ZRO\<close> when \<open>reg[r]\<close> is 0, \<open>FL_NEG\<close> when bit 15
  of \<open>reg[r]\<close> is set, \<open>FL_POS\<close> otherwise. The bits of the two other flags are clear in
  it.
\<close>

theorem update_flags_exactly_one:
  assumes "unat r < R_COUNT"
  shows "\<exists>c. update_flags r s = Inr (s\<lparr>reg := (reg s)(R_COND := c)\<rparr>)
           \<and> (c = FL_POS \<or> c = FL_ZRO \<or> c = FL_NEG)
           \<and> (c = FL_ZRO \<longleftrightarrow> reg s (unat r) = 0)
           \<and> (c = FL_NEG \<longleftrightarrow> bit (reg s (unat r)) 15)
           \<and> (c = FL_POS \<longleftrightarrow> reg s (unat r) \<noteq> 0 \<and> \<not> bit (reg s (unat r)) 15)
           \<and> (c AND FL_ZRO \<noteq> 0 \<longleftrightarrow> c = FL_ZRO)
           \<and> (c AND FL_NEG \<noteq> 0 \<longleftrightarrow> c = FL_NEG)
           \<and> (c AND FL_POS \<noteq> 0 \<longleftrightarrow> c = FL_POS)"
proof -
  let ?v = "reg s (unat r)"
  let ?c = "if ?v = 0 then FL_ZRO else if bit ?v 15 then FL_NEG else FL_POS"
  have z: "\<not> bit (0 :: u16) 15" by simp
  have "update_flags r s = Inr (s\<lparr>reg := (reg s)(R_COND := ?c)\<rparr>)"
    using assms by (rule update_flags_result)
  moreover have "?c = FL_POS \<or> ?c = FL_ZRO \<or> ?c = FL_NEG" by simp
  moreover have "?c = FL_ZRO \<longleftrightarrow> ?v = 0" by (simp add: flag_names)
  moreover have "?c = FL_NEG \<longleftrightarrow> bit ?v 15" using z by (auto simp: flag_names)
  moreover have "?c = FL_POS \<longleftrightarrow> ?v \<noteq> 0 \<and> \<not> bit ?v 15" by (simp add: flag_names)
  moreover have "?c AND FL_ZRO \<noteq> 0 \<longleftrightarrow> ?c = FL_ZRO" by (simp add: flag_names)
  moreover have "?c AND FL_NEG \<noteq> 0 \<longleftrightarrow> ?c = FL_NEG" by (simp add: flag_names)
  moreover have "?c AND FL_POS \<noteq> 0 \<longleftrightarrow> ?c = FL_POS" by (simp add: flag_names)
  ultimately show ?thesis by blast
qed

theorem update_flags_exactly_one_witness:
  "unat (3 :: u16) < R_COUNT
   \<and> update_flags 3 ((globals_zero ())\<lparr>reg := (\<lambda>_. 0)(3 := 0x8001)\<rparr>) =
       Inr ((globals_zero ())\<lparr>reg := (\<lambda>_. 0)(3 := 0x8001, R_COND := FL_NEG)\<rparr>)"
proof -
  let ?s = "(globals_zero ())\<lparr>reg := (\<lambda>_. 0)(3 := 0x8001)\<rparr>"
  have h: "unat (3 :: u16) < R_COUNT" by (simp add: R_COUNT_def)
  have v: "bit (reg ?s (unat (3 :: u16))) 15" by (simp add: bit_iff_odd_drop_bit)
  from update_flags_exactly_one [OF h, of ?s] v
  have "update_flags 3 ?s = Inr (?s\<lparr>reg := (reg ?s)(R_COND := FL_NEG)\<rparr>)" by auto
  with h show ?thesis by simp
qed

subsection \<open>ADD\<close>

text \<open>
  A field masked with \<open>0x7\<close> is below 8, so it is an index into \<open>reg\<close>; the fields of
  the instruction word as quotients and remainders.
\<close>

lemma field3_bound: "unat ((w :: u16) AND 0x7) < 8"
proof -
  have "w AND 0x7 \<le> 0x7" by (rule word_and_le1)
  then have "unat (w AND 0x7) \<le> unat (0x7 :: u16)" by (simp only: word_le_nat_alt)
  then show ?thesis by simp
qed

lemma field3_in_bounds: "unat ((w :: u16) AND 0x7) < R_COUNT"
  using field3_bound [of w] by (simp add: R_COUNT_def)


lemma mode_test: "drop_bit 5 (instr :: u16) AND 0x1 \<noteq> 0 \<longleftrightarrow> bit instr 5"
  by (simp add: and_one_eq bit_iff_odd_drop_bit mod_2_eq_odd)

lemma unat_field3: "unat (drop_bit k (w :: u16) AND 0x7) = unat w div 2 ^ k mod 8"
proof -
  have "(0x7 :: u16) = mask 3" by (simp add: mask_eq_exp_minus_1)
  then have "drop_bit k w AND 0x7 = take_bit 3 (drop_bit k w)"
    by (simp only: take_bit_eq_mask)
  then have "unat (drop_bit k w AND 0x7) = take_bit 3 (drop_bit k (unat w))"
    by (simp only: unsigned_take_bit_eq unat_drop_bit_eq)
  then show ?thesis
    by (simp add: take_bit_eq_mod drop_bit_eq_div)
qed

lemma low5: "(w :: u16) AND 0x1F = take_bit 5 w"
proof -
  have "(0x1F :: u16) = mask 5" by (simp add: mask_eq_exp_minus_1)
  then show ?thesis by (simp add: take_bit_eq_mask)
qed

text \<open>The state after \<open>add\<close>, in closed form: no subscript of \<open>add\<close> leaves the array.\<close>

lemma add_result:
  "add instr s =
     Inr (let dr = unat (drop_bit 9 instr AND 0x7);
              v = reg s (unat (drop_bit 6 instr AND 0x7)) +
                  (if bit instr 5 then sign_extend (instr AND 0x1F) 5
                   else reg s (unat (instr AND 0x7)))
          in s\<lparr>reg := (reg s)(dr := v,
                 R_COND := (if v = 0 then FL_ZRO else if bit v 15 then FL_NEG else FL_POS))\<rparr>)"
proof -
  let ?dr = "drop_bit 9 instr AND 0x7"
  let ?sr1 = "drop_bit 6 instr AND 0x7"
  let ?sr2 = "instr AND 0x7"
  have b: "unat ?dr < R_COUNT" "unat ?sr1 < R_COUNT" "unat ?sr2 < R_COUNT"
    by (rule field3_in_bounds)+
  have uf: "\<And>t. update_flags ?dr t = Inr (t\<lparr>reg := (reg t)(R_COND :=
                  (if reg t (unat ?dr) = 0 then FL_ZRO
                   else if bit (reg t (unat ?dr)) 15 then FL_NEG else FL_POS))\<rparr>)"
    using b(1) by (rule update_flags_result)
  show ?thesis
    using b by (simp add: add_def Let_def reg_get_def reg_set_def bind_fault_def mode_test uf)
qed

text \<open>
  C1. \<open>add\<close> takes \<open>dr\<close> from bits 11 to 9, \<open>sr1\<close> from bits 8 to 6 and the mode from
  bit 5. With the mode bit set the second operand is \<open>sign_extend\<close> of bits 4 to 0,
  otherwise it is the register named by bits 2 to 0. The destination becomes
  \<open>reg[sr1]\<close> plus the operand modulo \<open>2 ^ 16\<close>, and the condition register is then set
  from the new destination. With \<open>reg[1] = 3\<close> and the word \<open>0x107E\<close> (opcode ADD,
  \<open>dr = 0\<close>, \<open>sr1 = 1\<close>, mode 1, \<open>imm5 = 0b11110\<close>), \<open>reg[0]\<close> becomes 1 and the flag is
  \<open>FL_POS\<close>.
\<close>

theorem add_handler:
  "(let dr = unat instr div 2 ^ 9 mod 8;
        sr1 = unat instr div 2 ^ 6 mod 8;
        operand2 = (if bit instr 5 then sign_extend (take_bit 5 instr) 5
                    else reg s (unat instr mod 8));
        v = reg s sr1 + operand2
    in add instr s =
         Inr (s\<lparr>reg := (reg s)(dr := v,
                R_COND := (if v = 0 then FL_ZRO else if bit v 15 then FL_NEG else FL_POS))\<rparr>)
       \<and> unat v = (unat (reg s sr1) + unat operand2) mod 2 ^ 16)
   \<and> (0x107E :: u16) = push_bit 12 OP_ADD + push_bit 9 0 + push_bit 6 1 + push_bit 5 1 + 0b11110
   \<and> add 0x107E (s\<lparr>reg := (reg s)(R_R1 := 3)\<rparr>) =
       Inr (s\<lparr>reg := (reg s)(R_R1 := 3, R_R0 := 1, R_COND := FL_POS)\<rparr>)"
proof -
  have f: "unat (drop_bit 9 instr AND 0x7) = unat instr div 2 ^ 9 mod 8"
    "unat (drop_bit 6 instr AND 0x7) = unat instr div 2 ^ 6 mod 8"
    by (rule unat_field3)+
  have g: "unat (instr AND 0x7) = unat instr mod 8"
    using unat_field3 [of 0 instr] by simp
  have general: "let dr = unat instr div 2 ^ 9 mod 8;
        sr1 = unat instr div 2 ^ 6 mod 8;
        operand2 = (if bit instr 5 then sign_extend (take_bit 5 instr) 5
                    else reg s (unat instr mod 8));
        v = reg s sr1 + operand2
    in add instr s =
         Inr (s\<lparr>reg := (reg s)(dr := v,
                R_COND := (if v = 0 then FL_ZRO else if bit v 15 then FL_NEG else FL_POS))\<rparr>)
       \<and> unat v = (unat (reg s sr1) + unat operand2) mod 2 ^ 16"
    unfolding add_result Let_def f g low5 by (simp add: unat_word_ariths)
  have enc: "(0x107E :: u16) = push_bit 12 OP_ADD + push_bit 9 0 + push_bit 6 1 + push_bit 5 1 + 0b11110"
    by (simp add: OP_ADD_def)
  have se: "sign_extend 0x1E 5 = 0xFFFE" by (simp add: sign_extend_def)
  have wrap: "(65537 :: u16) = 1" by simp
  have ex: "add 0x107E (s\<lparr>reg := (reg s)(R_R1 := 3)\<rparr>) =
       Inr (s\<lparr>reg := (reg s)(R_R1 := 3, R_R0 := 1, R_COND := FL_POS)\<rparr>)"
    unfolding add_result by (simp add: Let_def se wrap reg_names flag_names bit_iff_odd_drop_bit)
  from general enc ex show ?thesis by blast
qed

theorem add_handler_witness:
  "add 0x1042 ((globals_zero ())\<lparr>reg := (\<lambda>_. 0)(1 := 0xFFFF, 2 := 2)\<rparr>) =
     Inr ((globals_zero ())\<lparr>reg := (\<lambda>_. 0)(1 := 0xFFFF, 2 := 2, 0 := 1, R_COND := FL_POS)\<rparr>)"
proof -
  have wrap: "(65537 :: u16) = 1" by simp
  show ?thesis
    using add_handler [of "0x1042" "(globals_zero ())\<lparr>reg := (\<lambda>_. 0)(1 := 0xFFFF, 2 := 2)\<rparr>"]
    by (simp add: Let_def bit_iff_odd_drop_bit wrap flag_names)
qed

text \<open>
  C10. For every instruction word the three register indices that \<open>add\<close> extracts
  (\<open>dr\<close>, \<open>sr1\<close>, \<open>sr2\<close>, each masked with \<open>0x7\<close>) are below 8, hence inside \<open>reg\<close>, and
  \<open>dr\<close> is the index passed to \<open>update_flags\<close>: \<open>add\<close> never faults. It writes no
  register from index 8 on except the condition register, and its result on the
  registers below 8 and on the condition register depends on the registers below 8 only.
\<close>

theorem add_indices_in_bounds:
  "unat (drop_bit 9 instr AND 0x7 :: u16) < 8
   \<and> unat (drop_bit 6 instr AND 0x7 :: u16) < 8
   \<and> unat (instr AND 0x7 :: u16) < 8
   \<and> 8 \<le> R_COUNT
   \<and> (\<exists>s'. add instr s = Inr s'
          \<and> (\<forall>j. 8 \<le> j \<and> j \<noteq> R_COND \<longrightarrow> reg s' j = reg s j)
          \<and> (\<forall>t. (\<forall>j<8. reg t j = reg s j) \<longrightarrow>
                 (\<exists>t'. add instr t = Inr t' \<and> (\<forall>j<8. reg t' j = reg s' j)
                       \<and> reg t' R_COND = reg s' R_COND)))"
proof -
  let ?dr = "drop_bit 9 instr AND 0x7"
  let ?sr1 = "drop_bit 6 instr AND 0x7"
  let ?sr2 = "instr AND 0x7"
  have b: "unat ?dr < 8" "unat ?sr1 < 8" "unat ?sr2 < 8"
    by (rule field3_bound)+
  have c: "8 \<le> R_COUNT" by (simp add: R_COUNT_def)
  have frame: "\<forall>j. 8 \<le> j \<and> j \<noteq> R_COND \<longrightarrow> reg s' j = reg s j" if "add instr s = Inr s'" for s'
    using that b(1) unfolding add_result by (auto simp: Let_def)
  have reads: "\<exists>t'. add instr t = Inr t' \<and> (\<forall>j<8. reg t' j = reg s' j) \<and> reg t' R_COND = reg s' R_COND"
    if "add instr s = Inr s'" and "\<forall>j<8. reg t j = reg s j" for s' and t :: "'b vm"
    using that b unfolding add_result by (auto simp: Let_def R_COND_def)
  obtain s' where s': "add instr s = Inr s'" unfolding add_result by blast
  show ?thesis using b c s' frame [OF s'] reads [OF s'] by blast
qed

theorem add_indices_in_bounds_witness:
  "\<exists>s' t'. add 0x1FC7 ((globals_zero ())\<lparr>reg := (\<lambda>_. 0)(7 := 5, 8 := 0x3001)\<rparr>) = Inr s'
     \<and> add 0x1FC7 ((globals_zero ())\<lparr>reg := (\<lambda>_. 0)(7 := 5, 8 := 0x4000)\<rparr>) = Inr t'
     \<and> reg s' R_PC = 0x3001 \<and> reg t' 7 = reg s' 7 \<and> reg t' R_COND = reg s' R_COND"
proof -
  let ?s = "(globals_zero ())\<lparr>reg := (\<lambda>_. 0)(7 := 5, 8 := 0x3001)\<rparr>"
  let ?t = "(globals_zero ())\<lparr>reg := (\<lambda>_. 0)(7 := 5, 8 := 0x4000)\<rparr>"
  from add_indices_in_bounds [of "0x1FC7" ?s]
  obtain s' where 1: "add 0x1FC7 ?s = Inr s'"
    and 2: "\<forall>j. 8 \<le> j \<and> j \<noteq> R_COND \<longrightarrow> reg s' j = reg ?s j"
    and 3: "\<forall>t :: unit vm. (\<forall>j<8. reg t j = reg ?s j) \<longrightarrow>
                 (\<exists>t'. add 0x1FC7 t = Inr t' \<and> (\<forall>j<8. reg t' j = reg s' j)
                       \<and> reg t' R_COND = reg s' R_COND)"
    by blast
  from 2 have pc: "reg s' R_PC = 0x3001" by (simp add: reg_names)
  have "\<forall>j<8. reg ?t j = reg ?s j" by simp
  with 3 obtain t' where 4: "add 0x1FC7 ?t = Inr t'" and 5: "\<forall>j<8. reg t' j = reg s' j"
    and 6: "reg t' R_COND = reg s' R_COND" by blast
  from 5 have "reg t' 7 = reg s' 7" by simp
  with 1 4 pc 6 show ?thesis by blast
qed

subsection \<open>The size of memory\<close>

text \<open>
  C4. The claim is that memory has 65536 cells and that no address, \<open>0xFFFF\<close> included,
  is out of range. The array of the source is declared with \<open>UINT16_MAX\<close> cells, which is
  65535: the subscript at address \<open>0xFFFE\<close> is the last one inside the array, and the
  subscript at address \<open>0xFFFF\<close> is outside it.
\<close>

theorem memory_last_address_out_of_bounds:
  "MEMORY_CELLS = 65535
   \<and> memory_at m (unat (0xFFFE :: u16)) = Inr (m 65534)
   \<and> memory_at m (unat (0xFFFF :: u16)) = Inl MemoryOutOfBounds"
  by (simp add: MEMORY_CELLS_def UINT16_MAX_def memory_at_def)

subsection \<open>The start of a run\<close>

text \<open>
  C6, as amended. Before the first fetch the loop is running and the program counter is
  the constant \<open>PC_START\<close>, which is \<open>0x3000\<close>, whatever image files the command line
  names; it equals the load origin of an image when that origin is \<open>0x3000\<close>.
\<close>

theorem main_start_pc:
  "running (main_start images s)
   \<and> reg (main_start images s) R_PC = PC_START
   \<and> PC_START = 0x3000
   \<and> (load_origin file = Some 0x3000 \<longrightarrow>
        Some (reg (main_start (file # rest) s) R_PC) = load_origin file)"
  by (simp add: main_start_def PC_START_def)

theorem main_start_pc_witness:
  "load_origin [0x3000, 0x1234, 0x5678] = Some 0x3000
   \<and> Some (reg (main_start ([0x3000, 0x1234, 0x5678] # []) (globals_zero ())) R_PC)
       = load_origin [0x3000, 0x1234, 0x5678]"
  using main_start_pc [of "[]" "globals_zero ()" "[0x3000, 0x1234, 0x5678]" "[]"]
  by (simp add: load_origin_def main_start_def PC_START_def)

text \<open>
  C6, as stated, fails: for an image whose origin word is \<open>0x4000\<close> the program counter
  at the start is \<open>0x3000\<close>, not the origin.
\<close>

theorem pc_start_ignores_origin:
  "load_origin [0x4000, 0x1234, 0x5678] = Some 0x4000
   \<and> running (main_start ([0x4000, 0x1234, 0x5678] # []) (globals_zero ()))
   \<and> reg (main_start ([0x4000, 0x1234, 0x5678] # []) (globals_zero ())) R_PC = 0x3000
   \<and> Some (reg (main_start ([0x4000, 0x1234, 0x5678] # []) (globals_zero ())) R_PC)
       \<noteq> load_origin [0x4000, 0x1234, 0x5678]"
  by (simp add: load_origin_def main_start_def globals_zero_def PC_START_def)

subsection \<open>The loop\<close>

lemma opcode_field: "unat (drop_bit 12 (w :: u16)) = unat w div 2 ^ 12"
  by (subst unat_drop_bit_eq) (simp only: drop_bit_eq_div)

lemma opcode_bound: "unat (drop_bit 12 (w :: u16)) < 16"
proof -
  have "unat w < 2 ^ 16" using unsigned_less [of w] by simp
  then have "unat w div 2 ^ 12 < 16" by simp
  then show ?thesis by (simp only: opcode_field)
qed

lemma step_fetch:
  assumes "mem_read (reg s R_PC) (memory s) = Inr (w, m')"
  shows "step mem_read h s =
           dispatch h (drop_bit 12 w) w
             (s\<lparr>reg := (reg s)(R_PC := reg s R_PC + 1), memory := m'\<rparr>)"
  using assms by (simp add: step_def Let_def bind_fault_def)

text \<open>
  C7. One iteration of the loop reads the word at the program counter, leaves the
  program counter incremented by 1 modulo 65536 (from \<open>0xFFFF\<close> it becomes 0), takes
  bits 15 to 12 of the word as the opcode, a value below 16, and dispatches on it with
  the incremented program counter; an ADD word runs \<open>add\<close>. The loop runs an
  iteration exactly when \<open>running\<close> holds.
\<close>

theorem step_fetch_increment_decode:
  assumes "mem_read (reg s R_PC) (memory s) = Inr (w, m')"
  shows "step mem_read h s =
           dispatch h (drop_bit 12 w) w
             (s\<lparr>reg := (reg s)(R_PC := reg s R_PC + 1), memory := m'\<rparr>)
         \<and> unat (reg s R_PC + 1) = (unat (reg s R_PC) + 1) mod 65536
         \<and> (reg s R_PC = 0xFFFF \<longrightarrow> reg s R_PC + 1 = 0)
         \<and> unat (drop_bit 12 w) = unat w div 2 ^ 12
         \<and> unat (drop_bit 12 w) < 16
         \<and> (drop_bit 12 w = OP_ADD \<longrightarrow>
              step mem_read h s =
                add w (s\<lparr>reg := (reg s)(R_PC := reg s R_PC + 1), memory := m'\<rparr>))
         \<and> run mem_read h (Suc n) s =
             (if running s then bind_fault (step mem_read h s) (run mem_read h n) else Inr s)"
proof -
  have "unat (reg s R_PC + 1) = (unat (reg s R_PC) + 1) mod 65536"
    by (simp add: unat_word_ariths)
  moreover have "reg s R_PC = 0xFFFF \<longrightarrow> reg s R_PC + 1 = 0" by simp
  moreover have "drop_bit 12 w = OP_ADD \<longrightarrow>
              step mem_read h s =
                add w (s\<lparr>reg := (reg s)(R_PC := reg s R_PC + 1), memory := m'\<rparr>)"
    using assms by (simp add: step_fetch dispatch_def)
  ultimately show ?thesis
    using assms opcode_field [of w] opcode_bound [of w] by (simp add: step_fetch)
qed

theorem step_fetch_increment_decode_witness:
  "array_read 0x3000 ((\<lambda>_. 0)(0x3000 := 0x107E)) = Inr (0x107E, (\<lambda>_. 0)(0x3000 := 0x107E))
   \<and> drop_bit 12 (0x107E :: u16) = OP_ADD
   \<and> step array_read (\<lambda>_ _. Inr)
        ((globals_zero ((\<lambda>_. 0)(0x3000 := 0x107E)))\<lparr>reg := (\<lambda>_. 0)(R_PC := 0x3000), running := True\<rparr>)
       = add 0x107E
        ((globals_zero ((\<lambda>_. 0)(0x3000 := 0x107E)))\<lparr>reg := (\<lambda>_. 0)(R_PC := 0x3001), running := True\<rparr>)
   \<and> step (\<lambda>a m. Inr (0x107E, m)) (\<lambda>_ _. Inr)
        ((globals_zero ())\<lparr>reg := (\<lambda>_. 0)(R_PC := 0xFFFF), running := True\<rparr>)
       = add 0x107E ((globals_zero ())\<lparr>reg := (\<lambda>_. 0)(R_PC := 0), running := True\<rparr>)"
proof -
  let ?m = "(\<lambda>_. 0)(0x3000 := 0x107E) :: cells"
  let ?s = "(globals_zero ?m)\<lparr>reg := (\<lambda>_. 0)(R_PC := 0x3000), running := True\<rparr>"
  let ?t = "(globals_zero ())\<lparr>reg := (\<lambda>_. 0)(R_PC := 0xFFFF), running := True\<rparr>"
  let ?k = "\<lambda>(a :: u16) (m :: unit). (Inr (0x107E, m) :: fault + u16 \<times> unit)"
  let ?h = "\<lambda>(_ :: u16) (_ :: u16). Inr"
  have r: "array_read 0x3000 ?m = Inr (0x107E, ?m)"
    by (simp add: array_read_def memory_at_def MEMORY_CELLS_def UINT16_MAX_def bind_fault_def)
  have op: "drop_bit 12 (0x107E :: u16) = OP_ADD"
    by (simp add: OP_ADD_def drop_bit_eq_div)
  have f1: "array_read (reg ?s R_PC) (memory ?s) = Inr (0x107E, ?m)"
    using r by (simp add: globals_zero_def)
  have f2: "?k (reg ?t R_PC) (memory ?t) = Inr (0x107E, ())" by simp
  have a: "step array_read ?h ?s
       = add 0x107E ((globals_zero ?m)\<lparr>reg := (\<lambda>_. 0)(R_PC := 0x3001), running := True\<rparr>)"
  proof -
    have "drop_bit 12 (0x107E :: u16) = OP_ADD \<longrightarrow> step array_read ?h ?s =
            add 0x107E (?s\<lparr>reg := (reg ?s)(R_PC := reg ?s R_PC + 1), memory := ?m\<rparr>)"
      using step_fetch_increment_decode [of array_read ?s "0x107E" ?m ?h 0] f1 by blast
    with op have "step array_read ?h ?s =
            add 0x107E (?s\<lparr>reg := (reg ?s)(R_PC := reg ?s R_PC + 1), memory := ?m\<rparr>)"
      by blast
    then show ?thesis by (simp add: globals_zero_def)
  qed
  have b: "step ?k ?h ?t = add 0x107E ((globals_zero ())\<lparr>reg := (\<lambda>_. 0)(R_PC := 0), running := True\<rparr>)"
  proof -
    have "drop_bit 12 (0x107E :: u16) = OP_ADD \<longrightarrow> step ?k ?h ?t =
            add 0x107E (?t\<lparr>reg := (reg ?t)(R_PC := reg ?t R_PC + 1), memory := ()\<rparr>)"
      using step_fetch_increment_decode [of ?k ?t "0x107E" "()" ?h 0] f2 by blast
    with op have "step ?k ?h ?t =
            add 0x107E (?t\<lparr>reg := (reg ?t)(R_PC := reg ?t R_PC + 1), memory := ()\<rparr>)"
      by blast
    moreover have "reg ?t R_PC = 0xFFFF \<longrightarrow> reg ?t R_PC + 1 = 0"
      using step_fetch_increment_decode [of ?k ?t "0x107E" "()" ?h 0] f2 by blast
    then have "reg ?t R_PC + 1 = 0" by simp
    then have "(65536 :: u16) = 0" by simp
    ultimately show ?thesis by (simp add: globals_zero_def)
  qed
  from r op a b show ?thesis by simp
qed

lemma bad_opcode_dispatch:
  assumes "op \<notin> {OP_ADD, OP_AND, OP_NOT, OP_BR, OP_JMP, OP_JSR, OP_LD, OP_LDI, OP_LDR,
                    OP_LEA, OP_ST, OP_STI, OP_STR, OP_TRAP}"
  shows "dispatch h op instr s = bad_opcode op s"
  using assms by (simp add: dispatch_def)

lemma run_halted: "\<not> running s \<Longrightarrow> run mem_read h n s = Inr s"
  by (cases n) simp_all

text \<open>
  C5. When the fetched word has opcode \<open>OP_RES\<close> or \<open>OP_RTI\<close>, or an opcode outside the
  sixteen named ones, the iteration ends without a fault in a halted state: \<open>running\<close>
  is false, the diagnostic holds the opcode and the address the word was fetched from,
  the registers are those before the fetch with the program counter incremented, and
  the loop executes nothing further from there.
\<close>

theorem bad_opcode_halts:
  assumes "mem_read (reg s R_PC) (memory s) = Inr (w, m')"
    and "drop_bit 12 w = OP_RES \<or> drop_bit 12 w = OP_RTI
         \<or> drop_bit 12 w \<notin> {OP_ADD, OP_AND, OP_NOT, OP_BR, OP_JMP, OP_JSR, OP_LD, OP_LDI,
                              OP_LDR, OP_LEA, OP_ST, OP_STI, OP_STR, OP_TRAP, OP_RES, OP_RTI}"
  shows "\<exists>s'. step mem_read h s = Inr s'
           \<and> \<not> running s'
           \<and> diag s' = Some (drop_bit 12 w, reg s R_PC)
           \<and> reg s' = (reg s)(R_PC := reg s R_PC + 1)
           \<and> memory s' = m'
           \<and> (\<forall>n. run mem_read h n s' = Inr s')
           \<and> (running s \<longrightarrow> (\<forall>n. run mem_read h (Suc n) s = Inr s'))"
proof -
  let ?s1 = "s\<lparr>reg := (reg s)(R_PC := reg s R_PC + 1), memory := m'\<rparr>"
  let ?s' = "?s1\<lparr>running := False, diag := Some (drop_bit 12 w, reg s R_PC)\<rparr>"
  have "drop_bit 12 w \<notin> {OP_ADD, OP_AND, OP_NOT, OP_BR, OP_JMP, OP_JSR, OP_LD, OP_LDI,
                           OP_LDR, OP_LEA, OP_ST, OP_STI, OP_STR, OP_TRAP}"
    using assms(2) by (auto simp: op_names)
  then have "dispatch h (drop_bit 12 w) w ?s1 = bad_opcode (drop_bit 12 w) ?s1"
    by (rule bad_opcode_dispatch)
  then have st: "step mem_read h s = Inr ?s'"
    using assms(1) by (simp add: step_fetch bad_opcode_def)
  have halted: "\<not> running ?s'" by simp
  have stay: "\<forall>n. run mem_read h n ?s' = Inr ?s'"
    using halted by (simp add: run_halted)
  have "running s \<longrightarrow> (\<forall>n. run mem_read h (Suc n) s = Inr ?s')"
    using st stay by (simp add: bind_fault_def)
  with st stay show ?thesis by (intro exI [of _ ?s']) simp
qed

theorem bad_opcode_halts_witness:
  "array_read 0x3000 ((\<lambda>_. 0)(0x3000 := 0xD000)) = Inr (0xD000, (\<lambda>_. 0)(0x3000 := 0xD000))
   \<and> drop_bit 12 (0xD000 :: u16) = OP_RES
   \<and> (\<exists>s'. run array_read (\<lambda>_ _. Inr) (Suc 5)
               ((globals_zero ((\<lambda>_. 0)(0x3000 := 0xD000)))
                  \<lparr>reg := (\<lambda>_. 0)(R_PC := 0x3000), running := True\<rparr>) = Inr s'
          \<and> \<not> running s' \<and> diag s' = Some (OP_RES, 0x3000) \<and> reg s' R_PC = 0x3001)"
proof -
  let ?m = "(\<lambda>_. 0)(0x3000 := 0xD000) :: cells"
  let ?s = "(globals_zero ?m)\<lparr>reg := (\<lambda>_. 0)(R_PC := 0x3000), running := True\<rparr>"
  let ?h = "\<lambda>(_ :: u16) (_ :: u16). Inr"
  have r: "array_read 0x3000 ?m = Inr (0xD000, ?m)"
    by (simp add: array_read_def memory_at_def MEMORY_CELLS_def UINT16_MAX_def bind_fault_def)
  have op: "drop_bit 12 (0xD000 :: u16) = OP_RES"
    by (simp add: OP_RES_def drop_bit_eq_div)
  have f: "array_read (reg ?s R_PC) (memory ?s) = Inr (0xD000, ?m)"
    using r by (simp add: globals_zero_def)
  have g: "drop_bit 12 (0xD000 :: u16) = OP_RES \<or> drop_bit 12 (0xD000 :: u16) = OP_RTI
         \<or> drop_bit 12 (0xD000 :: u16) \<notin> {OP_ADD, OP_AND, OP_NOT, OP_BR, OP_JMP, OP_JSR, OP_LD,
              OP_LDI, OP_LDR, OP_LEA, OP_ST, OP_STI, OP_STR, OP_TRAP, OP_RES, OP_RTI}"
    using op by blast
  have run_s: "running ?s" by simp
  from bad_opcode_halts [of array_read ?s "0xD000" ?m, OF f g, of ?h]
  obtain s' where 1: "\<not> running s'" and 2: "diag s' = Some (drop_bit 12 (0xD000 :: u16), reg ?s R_PC)"
    and 3: "reg s' = (reg ?s)(R_PC := reg ?s R_PC + 1)"
    and 4: "running ?s \<longrightarrow> (\<forall>n. run array_read ?h (Suc n) ?s = Inr s')"
    by blast
  from 4 run_s have "run array_read ?h (Suc 5) ?s = Inr s'" by blast
  moreover from 2 op have "diag s' = Some (OP_RES, 0x3000)" by simp
  moreover from 3 have "reg s' R_PC = 0x3001" by simp
  ultimately show ?thesis using r op 1 by blast
qed

subsection \<open>LDI\<close>

lemma low9: "(w :: u16) AND 0x1FF = take_bit 9 w"
proof -
  have "(0x1FF :: u16) = mask 9" by (simp add: mask_eq_exp_minus_1)
  then show ?thesis by (simp add: take_bit_eq_mask)
qed

text \<open>
  C8. With \<open>dr\<close> bits 11 to 9 of the word and the address the program counter plus
  \<open>sign_extend\<close> of bits 8 to 0, \<open>ldi\<close> reads the word \<open>a\<close> at the address, then the word
  \<open>v\<close> at \<open>a\<close>, stores \<open>v\<close> in \<open>reg[dr]\<close> and then sets the condition register from it.
  When the first read gives \<open>0x3100\<close> and the read at \<open>0x3100\<close> gives \<open>0x1234\<close>, the
  destination receives \<open>0x1234\<close>.
\<close>

theorem ldi_double_indirection:
  assumes "mem_read (reg s R_PC + sign_extend (take_bit 9 instr) 9) (memory s) = Inr (a, m1)"
    and "mem_read a m1 = Inr (v, m2)"
  shows "ldi mem_read instr s =
           Inr (s\<lparr>reg := (reg s)(unat instr div 2 ^ 9 mod 8 := v,
                  R_COND := (if v = 0 then FL_ZRO else if bit v 15 then FL_NEG else FL_POS)),
                 memory := m2\<rparr>)"
proof -
  let ?dr = "drop_bit 9 instr AND 0x7"
  have b: "unat ?dr < R_COUNT" by (rule field3_in_bounds)
  have uf: "\<And>t. update_flags ?dr t = Inr (t\<lparr>reg := (reg t)(R_COND :=
                  (if reg t (unat ?dr) = 0 then FL_ZRO
                   else if bit (reg t (unat ?dr)) 15 then FL_NEG else FL_POS))\<rparr>)"
    using b by (rule update_flags_result)
  have d: "unat ?dr = unat instr div 2 ^ 9 mod 8" by (rule unat_field3)
  show ?thesis
    using assms b
    by (simp add: ldi_def Let_def low9 bind_fault_def reg_set_def uf d)
qed

theorem ldi_double_indirection_witness:
  "array_read (0x3001 + sign_extend (take_bit 9 0xA3FF) 9)
       ((\<lambda>_. 0)(0x3000 := 0x3100, 0x3100 := 0x1234))
     = Inr (0x3100, (\<lambda>_. 0)(0x3000 := 0x3100, 0x3100 := 0x1234))
   \<and> array_read 0x3100 ((\<lambda>_. 0)(0x3000 := 0x3100, 0x3100 := 0x1234))
     = Inr (0x1234, (\<lambda>_. 0)(0x3000 := 0x3100, 0x3100 := 0x1234))
   \<and> ldi array_read 0xA3FF
        ((globals_zero ((\<lambda>_. 0)(0x3000 := 0x3100, 0x3100 := 0x1234)))
           \<lparr>reg := (\<lambda>_. 0)(R_PC := 0x3001)\<rparr>)
     = Inr ((globals_zero ((\<lambda>_. 0)(0x3000 := 0x3100, 0x3100 := 0x1234)))
           \<lparr>reg := (\<lambda>_. 0)(R_PC := 0x3001, 1 := 0x1234, R_COND := FL_POS)\<rparr>)"
proof -
  let ?m = "(\<lambda>_. 0)(0x3000 := 0x3100, 0x3100 := 0x1234) :: cells"
  let ?s = "(globals_zero ?m)\<lparr>reg := (\<lambda>_. 0)(R_PC := 0x3001)\<rparr>"
  have se: "sign_extend (take_bit 9 0xA3FF) 9 = 0xFFFF"
    by (simp add: sign_extend_def take_bit_eq_mod)
  have pc: "(0x3001 :: u16) + 0xFFFF = 0x3000" by simp
  have r1: "array_read (0x3001 + sign_extend (take_bit 9 0xA3FF) 9) ?m = Inr (0x3100, ?m)"
    unfolding se pc
    by (simp add: array_read_def memory_at_def MEMORY_CELLS_def UINT16_MAX_def bind_fault_def)
  have r2: "array_read 0x3100 ?m = Inr (0x1234, ?m)"
    by (simp add: array_read_def memory_at_def MEMORY_CELLS_def UINT16_MAX_def bind_fault_def)
  have f1: "array_read (reg ?s R_PC + sign_extend (take_bit 9 0xA3FF) 9) (memory ?s) = Inr (0x3100, ?m)"
    using r1 by (simp add: globals_zero_def)
  have "ldi array_read 0xA3FF ?s =
           Inr (?s\<lparr>reg := (reg ?s)(unat (0xA3FF :: u16) div 2 ^ 9 mod 8 := 0x1234,
                  R_COND := (if (0x1234 :: u16) = 0 then FL_ZRO
                             else if bit (0x1234 :: u16) 15 then FL_NEG else FL_POS)),
                 memory := ?m\<rparr>)"
    using f1 r2 by (rule ldi_double_indirection)
  then have "ldi array_read 0xA3FF ?s
     = Inr ((globals_zero ?m)\<lparr>reg := (\<lambda>_. 0)(R_PC := 0x3001, 1 := 0x1234, R_COND := FL_POS)\<rparr>)"
    by (simp add: globals_zero_def bit_iff_odd_drop_bit)
  with r1 r2 show ?thesis by simp
qed

end
